theory Spec2Isabelle
  imports Main
begin

section \<open>Python strings\<close>

text \<open>
  A Python \<open>str\<close> is modelled as a \<open>string\<close> whose characters are the code points
  below 256. The string methods used by \<open>pluginlib.py\<close> are modelled on that range.
\<close>

abbreviation LF :: char where "LF \<equiv> CHR 0x0A"
abbreviation CR :: char where "CR \<equiv> CHR 0x0D"

text \<open>The code points below 256 for which \<open>str.isspace\<close> holds.\<close>

definition whitespace :: "char list" where
  "whitespace = [CHR 0x09, LF, CHR 0x0B, CHR 0x0C, CR, CHR 0x1C, CHR 0x1D,
     CHR 0x1E, CHR 0x1F, CHR 0x20, CHR 0x85, CHR 0xA0]"

definition isspace :: "char \<Rightarrow> bool" where
  "isspace c \<longleftrightarrow> c \<in> set whitespace"

text \<open>\<open>s.strip()\<close>: leading and trailing whitespace removed.\<close>

definition py_strip :: "string \<Rightarrow> string" where
  "py_strip s = rev (dropWhile isspace (rev (dropWhile isspace s)))"

text \<open>
  \<open>s.lower()\<close>: the upper-case code points below 256 are \<open>A\<close>..\<open>Z\<close> and
  \<open>0xC0\<close>..\<open>0xDE\<close> without \<open>0xD7\<close>; each lower-case partner is 32 higher, which
  sets the bit of weight 32 (it is clear in both ranges).
\<close>

definition isupper_char :: "char \<Rightarrow> bool" where
  "isupper_char c \<longleftrightarrow>
     (let n = (of_char c :: nat)
      in (65 \<le> n \<and> n \<le> 90) \<or> (192 \<le> n \<and> n \<le> 222 \<and> n \<noteq> 215))"

definition lower_char :: "char \<Rightarrow> char" where
  "lower_char c =
     (if isupper_char c
      then (case c of Char b0 b1 b2 b3 b4 b5 b6 b7 \<Rightarrow> Char b0 b1 b2 b3 b4 True b6 b7)
      else c)"

definition py_lower :: "string \<Rightarrow> string" where
  "py_lower s = map lower_char s"

definition py_startswith :: "string \<Rightarrow> string \<Rightarrow> bool" where
  "py_startswith s p \<longleftrightarrow> take (length p) s = p"

definition py_endswith :: "string \<Rightarrow> string \<Rightarrow> bool" where
  "py_endswith s p \<longleftrightarrow> length p \<le> length s \<and> drop (length s - length p) s = p"

text \<open>
  The line boundaries of \<open>str.splitlines\<close> below 256: \<open>\n\<close>, \<open>\r\<close>, \<open>\x0b\<close>, \<open>\x0c\<close>,
  \<open>\x1c\<close>, \<open>\x1d\<close>, \<open>\x1e\<close> and \<open>\x85\<close>; \<open>\r\n\<close> counts as one boundary.
\<close>

definition linebreaks :: "char list" where
  "linebreaks = [LF, CR, CHR 0x0B, CHR 0x0C, CHR 0x1C, CHR 0x1D, CHR 0x1E, CHR 0x85]"

definition is_linebreak :: "char \<Rightarrow> bool" where
  "is_linebreak c \<longleftrightarrow> c \<in> set linebreaks"

fun py_splitlines :: "string \<Rightarrow> string list" where
  "py_splitlines [] = []"
| "py_splitlines [c] = (if is_linebreak c then [[]] else [[c]])"
| "py_splitlines (c # d # cs) =
     (if c = CR \<and> d = LF then [] # py_splitlines cs
      else if is_linebreak c then [] # py_splitlines (d # cs)
      else (case py_splitlines (d # cs) of
              [] \<Rightarrow> [[c]]
            | l # ls \<Rightarrow> (c # l) # ls))"

section \<open>Text files\<close>

text \<open>
  \<open>open(fn)\<close> reads in text mode with universal newlines: \<open>\r\n\<close> and a lone \<open>\r\<close> arrive
  as \<open>\n\<close>. \<open>open(fn, 'w')\<close> stores \<open>\n\<close> as it is (POSIX).
\<close>

fun universal_newlines :: "string \<Rightarrow> string" where
  "universal_newlines [] = []"
| "universal_newlines [c] = [if c = CR then LF else c]"
| "universal_newlines (c # d # cs) =
     (if c = CR \<and> d = LF then LF # universal_newlines cs
      else (if c = CR then LF else c) # universal_newlines (d # cs))"

text \<open>\<open>f.readlines()\<close>: the text cut after each \<open>\n\<close>, which stays on its line.\<close>

fun readlines :: "string \<Rightarrow> string list" where
  "readlines [] = []"
| "readlines (c # cs) =
     (if c = LF then [c] # readlines cs
      else (case readlines cs of
              [] \<Rightarrow> [[c]]
            | l # ls \<Rightarrow> (c # l) # ls))"

text \<open>The comprehension \<open>[l.strip() for l in f.readlines() if l.strip()]\<close>.\<close>

definition stripped_lines :: "string \<Rightarrow> string list" where
  "stripped_lines text = map py_strip (filter (\<lambda>l. py_strip l \<noteq> []) (readlines text))"

text \<open>The loop \<open>for line in lines: f.write(line); f.write('\n')\<close>.\<close>

definition write_lines :: "string list \<Rightarrow> string" where
  "write_lines lines = concat (map (\<lambda>line. line @ [LF]) lines)"

section \<open>Errors\<close>

text \<open>
  A message built with \<open>fmt % args\<close> is kept as the format string and the tuple of its
  arguments (\<open>Format\<close>); an argument is a string or a list of strings. \<open>Plain\<close> is
  the text of an exception that a library raised.
\<close>

datatype py_arg = Str string | StrList "string list"

datatype message = Plain string | Format string "py_arg list"

datatype error =
    ValueError message
  | PackageNotFoundError message
  | FileNotFoundError
  | IsADirectoryError
  | KeyError
  | AttributeError
  | OtherError string

section \<open>File system\<close>

text \<open>
  The file system holds text files and directories by path. Of the failures of the
  operating system, the model has opening a path that is a directory, and
  \<open>os.makedirs('')\<close>. It does not have the failures of a path below a regular file, nor
  the parent directories that \<open>os.makedirs\<close> creates on its way: where the model returns
  an error the code raises, and a result of the model is a result of the code when the
  operating system lets the call through.
\<close>

record filesystem =
  files :: "string \<rightharpoonup> string"
  dirs :: "string set"

definition os_path_exists :: "filesystem \<Rightarrow> string \<Rightarrow> bool" where
  "os_path_exists fs p \<longleftrightarrow> p \<in> dom (files fs) \<or> p \<in> dirs fs"

text \<open>\<open>posixpath.join(a, b)\<close>.\<close>

definition os_path_join :: "string \<Rightarrow> string \<Rightarrow> string" where
  "os_path_join a b =
     (if py_startswith b ''/'' then b
      else if a = [] \<or> py_endswith a ''/'' then a @ b
      else a @ ''/'' @ b)"

text \<open>
  \<open>posixpath.dirname(p)\<close>: the part up to the last slash, without its trailing slashes
  unless it consists of slashes only.
\<close>

definition os_path_dirname :: "string \<Rightarrow> string" where
  "os_path_dirname p =
     (let head = rev (dropWhile (\<lambda>c. c \<noteq> CHR ''/'') (rev p))
      in if head \<noteq> [] \<and> head \<noteq> replicate (length head) (CHR ''/'')
         then rev (dropWhile (\<lambda>c. c = CHR ''/'') (rev head))
         else head)"

definition os_makedirs :: "filesystem \<Rightarrow> string \<Rightarrow> error + filesystem" where
  "os_makedirs fs d =
     (if d = [] then Inl FileNotFoundError
      else Inr (fs\<lparr>dirs := insert d (dirs fs)\<rparr>))"

text \<open>\<open>open(fn)\<close> followed by reading: the text of the file.\<close>

definition open_read :: "filesystem \<Rightarrow> string \<Rightarrow> error + string" where
  "open_read fs fn =
     (case files fs fn of
        None \<Rightarrow> Inl (if fn \<in> dirs fs then IsADirectoryError else FileNotFoundError)
      | Some content \<Rightarrow> Inr (universal_newlines content))"

text \<open>\<open>open(fn, 'w')\<close>, the writes and \<open>close\<close>: the file is replaced.\<close>

definition open_write :: "filesystem \<Rightarrow> string \<Rightarrow> string \<Rightarrow> error + filesystem" where
  "open_write fs fn content =
     (if fn \<in> dirs fs then Inl IsADirectoryError
      else Inr (fs\<lparr>files := (files fs)(fn \<mapsto> content)\<rparr>))"

section \<open>Manifest store: \<open>add_plugin\<close>, \<open>remove_plugin\<close>, \<open>parse_lines\<close>\<close>

definition add_plugin :: "filesystem \<Rightarrow> string \<Rightarrow> string \<Rightarrow> error + filesystem" where
  "add_plugin fs egg_info_dir plugin_name =
     (let fn = os_path_join egg_info_dir ''paster_plugins.txt''
      in case (if \<not> os_path_exists fs fn then Inr []
               else map_sum id stripped_lines (open_read fs fn)) of
           Inl e \<Rightarrow> Inl e
         | Inr lines \<Rightarrow>
             if plugin_name \<in> set lines then Inr fs
             else
               let lines = lines @ [plugin_name]
               in (case (if \<not> os_path_exists fs (os_path_dirname fn)
                         then os_makedirs fs (os_path_dirname fn) else Inr fs) of
                     Inl e \<Rightarrow> Inl e
                   | Inr fs \<Rightarrow> open_write fs fn (write_lines lines)))"

text \<open>
  \<open>remove_plugin\<close>; the \<open>for ... else\<close> loop is \<open>find\<close>, \<open>lines.remove(line)\<close> is
  \<open>remove1\<close>. The \<open>print\<close> to standard output is left out.
\<close>

definition remove_plugin :: "filesystem \<Rightarrow> string \<Rightarrow> string \<Rightarrow> error + filesystem" where
  "remove_plugin fs egg_info_dir plugin_name =
     (let fn = os_path_join egg_info_dir ''paster_plugins.txt''
      in if \<not> os_path_exists fs fn
         then Inl (ValueError
                (Format ''Cannot remove plugin from %s; file does not exist'' [Str fn]))
         else
           (case open_read fs fn of
              Inl e \<Rightarrow> Inl e
            | Inr text \<Rightarrow>
                let lines = stripped_lines text
                in (case find (\<lambda>line. py_lower line = py_lower plugin_name) lines of
                      None \<Rightarrow>
                        Inl (ValueError
                               (Format ''Plugin %s not found in file %s (from: %s)''
                                  [Str plugin_name, Str fn, StrList lines]))
                    | Some line \<Rightarrow> open_write fs fn (write_lines (remove1 line lines)))))"

definition parse_lines :: "string \<Rightarrow> string list" where
  "parse_lines data =
     filter (\<lambda>line. line \<noteq> [] \<and> \<not> py_startswith line ''#'')
       (map py_strip (py_splitlines data))"

text \<open>The lines of a directory's manifest as \<open>add_plugin\<close> and \<open>remove_plugin\<close> read them.\<close>

definition manifest_lines :: "filesystem \<Rightarrow> string \<Rightarrow> string list" where
  "manifest_lines fs egg_info_dir =
     (case files fs (os_path_join egg_info_dir ''paster_plugins.txt'') of
        None \<Rightarrow> []
      | Some content \<Rightarrow> stripped_lines (universal_newlines content))"

text \<open>A string that \<open>strip\<close> leaves as it is.\<close>

definition stripped :: "string \<Rightarrow> bool" where
  "stripped s \<longleftrightarrow> s = [] \<or> (\<not> isspace (hd s) \<and> \<not> isspace (last s))"

text \<open>
  A name that comes back unchanged as one line when it is written to a manifest and
  read again: not empty, no whitespace around it, no line end inside.
\<close>

definition plain_name :: "string \<Rightarrow> bool" where
  "plain_name s \<longleftrightarrow> s \<noteq> [] \<and> py_strip s = s \<and> LF \<notin> set s \<and> CR \<notin> set s"

section \<open>Metadata directory locator: \<open>find_egg_info_dir\<close>\<close>

text \<open>
  What the locator sees of the directories: \<open>os.listdir\<close>, with \<open>None\<close> when it raises
  \<open>OSError\<close>, and \<open>os.path.isdir\<close>.
\<close>

record directories =
  os_listdir :: "string \<Rightarrow> string list option"
  os_path_isdir :: "string \<Rightarrow> bool"

function find_egg_info_dir :: "directories \<Rightarrow> string \<Rightarrow> string option" where
  "find_egg_info_dir os dir =
     (case os_listdir os dir of
        None \<Rightarrow> None
      | Some filenames \<Rightarrow>
          (case find (\<lambda>fn. py_endswith fn ''.egg-info'' \<and> os_path_isdir os (os_path_join dir fn))
                  filenames of
             Some fn \<Rightarrow> Some (os_path_join dir fn)
           | None \<Rightarrow>
               let parent = os_path_dirname dir
               in if parent = dir then None else find_egg_info_dir os parent))"
  by pat_completeness auto
termination
proof (relation "measure (\<lambda>(os, dir). length dir)")
  show "wf (measure (\<lambda>(os, dir). length dir))"
    by simp
next
  fix os :: directories and dir :: string and parent :: string
  assume parent: "parent = os_path_dirname dir" and neq: "parent \<noteq> dir"
  define head where "head = rev (dropWhile (\<lambda>c. c \<noteq> CHR ''/'') (rev dir))"
  have le_parent: "length parent \<le> length head"
    unfolding parent os_path_dirname_def head_def [symmetric] Let_def
    using length_dropWhile_le [of _ "rev head"] by simp
  have "length parent < length dir"
  proof (cases "rev dir")
    case Nil
    with parent neq show ?thesis
      by (simp add: os_path_dirname_def)
  next
    case (Cons c cs)
    then have len: "length dir = Suc (length cs)"
      by (metis length_Cons length_rev)
    show ?thesis
    proof (cases "c = CHR ''/''")
      case True
      with Cons have same: "head = dir"
        by (simp add: head_def rev_swap)
      with neq parent have "parent = rev (dropWhile (\<lambda>c. c = CHR ''/'') (rev dir))"
        by (auto simp: os_path_dirname_def head_def [symmetric] Let_def split: if_splits)
      with Cons True have "length parent = length (dropWhile (\<lambda>c. c = CHR ''/'') cs)"
        by simp
      also have "\<dots> \<le> length cs"
        by (rule length_dropWhile_le)
      finally show ?thesis
        using len by simp
    next
      case False
      with Cons have "length head = length (dropWhile (\<lambda>c. c \<noteq> CHR ''/'') cs)"
        by (simp add: head_def)
      also have "\<dots> \<le> length cs"
        by (rule length_dropWhile_le)
      finally show ?thesis
        using len le_parent by simp
    qed
  qed
  then show "((os, parent), (os, dir)) \<in> measure (\<lambda>(os, dir). length dir)"
    by simp
qed

section \<open>Distributions and the registry\<close>

record entry_point =
  ep_name :: string
  ep_value :: string
  ep_group :: string

text \<open>
  A distribution as \<open>importlib.metadata\<close> presents it: \<open>dist.metadata.get(key)\<close>,
  \<open>dist.read_text(filename)\<close>, which returns a text or \<open>None\<close> or raises, and the property
  \<open>dist.entry_points\<close>, which returns the entry points or raises.
\<close>

record distribution =
  metadata :: "string \<rightharpoonup> string"
  read_text :: "string \<Rightarrow> error + string option"
  entry_points :: "error + entry_point list"

text \<open>
  \<open>distribution(name)\<close>: the distribution, or \<open>PackageNotFoundError\<close>; \<open>NotFound s\<close> is
  that exception \<open>e\<close> with \<open>str(e) = s\<close>.
\<close>

datatype lookup = NotFound string | Found distribution

type_synonym registry = "string \<Rightarrow> lookup"

section \<open>Plugin resolver: \<open>resolve_plugins\<close>\<close>

text \<open>The \<open>except PackageNotFoundError\<close> clause: the exception with its new \<open>args\<close>.\<close>

definition not_found_error :: "string \<Rightarrow> string \<Rightarrow> error" where
  "not_found_error str_e plugin =
     (let msg = ''%sNot Found%s: %s (did you run python setup.py develop?)''
      in if str_e \<noteq> plugin
         then PackageNotFoundError (Format msg [Str (str_e @ '': ''), Str '' for'', Str plugin])
         else PackageNotFoundError (Format msg [Str [], Str [], Str plugin]))"

text \<open>
  The block under \<open>if dist.metadata.get('Metadata-Version')\<close>: the names that
  \<open>parse_lines\<close> yields for \<open>paster_plugins.txt\<close>, none when the field or the data is
  missing or empty, or when reading raises \<open>FileNotFoundError\<close> or \<open>KeyError\<close>; any other
  exception goes on.
\<close>

definition listed_plugins :: "distribution \<Rightarrow> error + string list" where
  "listed_plugins dist =
     (case metadata dist ''Metadata-Version'' of
        None \<Rightarrow> Inr []
      | Some version \<Rightarrow>
          if version = [] then Inr []
          else
            (case read_text dist ''paster_plugins.txt'' of
               Inl e \<Rightarrow> if e = FileNotFoundError \<or> e = KeyError then Inr [] else Inl e
             | Inr None \<Rightarrow> Inr []
             | Inr (Some data) \<Rightarrow> if data \<noteq> [] then Inr (parse_lines data) else Inr []))"

text \<open>
  The \<open>while plugin_list\<close> loop, with \<open>plugin_list\<close> and \<open>found\<close> as its state;
  \<open>pop()\<close> takes the last element. The result is \<open>None\<close> when the loop does not end.
\<close>

partial_function (option) resolve_loop ::
  "registry \<Rightarrow> string list \<Rightarrow> string list \<Rightarrow> (error + string list) option" where
  "resolve_loop reg plugin_list found =
     (if plugin_list = [] then Some (Inr found)
      else
        let plugin = last plugin_list;
            plugin_list = butlast plugin_list
        in (case reg plugin of
              NotFound str_e \<Rightarrow> Some (Inl (not_found_error str_e plugin))
            | Found dist \<Rightarrow>
                let found = found @ [plugin]
                in (case listed_plugins dist of
                      Inl e \<Rightarrow> Some (Inl e)
                    | Inr names \<Rightarrow>
                        resolve_loop reg
                          (plugin_list @ filter (\<lambda>name. name \<notin> set found) names) found)))"

definition get_distro :: "registry \<Rightarrow> string \<Rightarrow> error + distribution" where
  "get_distro reg spec =
     (case reg spec of
        NotFound str_e \<Rightarrow> Inl (PackageNotFoundError (Plain str_e))
      | Found dist \<Rightarrow> Inr dist)"

text \<open>\<open>list(map(get_distro, found))\<close>: the first exception ends it.\<close>

fun map_get_distro :: "registry \<Rightarrow> string list \<Rightarrow> error + distribution list" where
  "map_get_distro reg [] = Inr []"
| "map_get_distro reg (spec # specs) =
     (case get_distro reg spec of
        Inl e \<Rightarrow> Inl e
      | Inr dist \<Rightarrow>
          (case map_get_distro reg specs of
             Inl e \<Rightarrow> Inl e
           | Inr dists \<Rightarrow> Inr (dist # dists)))"

definition resolve_plugins ::
  "registry \<Rightarrow> string list \<Rightarrow> (error + distribution list) option" where
  "resolve_plugins reg plugin_list =
     (case resolve_loop reg plugin_list [] of
        None \<Rightarrow> None
      | Some (Inl e) \<Rightarrow> Some (Inl e)
      | Some (Inr found) \<Rightarrow> Some (map_get_distro reg found))"

section \<open>Command loader: \<open>load_commands_from_plugins\<close>\<close>




section \<open>Auxiliary notions for the statements\<close>

text \<open>
  A text in which the only line boundaries are \<open>\n\<close>, \<open>\r\n\<close> and \<open>\r\<close>: on such a
  text \<open>splitlines\<close> cuts where \<open>readlines\<close> does.
\<close>

definition newline_only :: "string \<Rightarrow> bool" where
  "newline_only s \<longleftrightarrow> (\<forall>c\<in>set s. is_linebreak c \<longrightarrow> c = LF \<or> c = CR)"

text \<open>
  Modelled from the spec: \<open>read(dir)\<close>, which has no function of its own in
  \<open>pluginlib.py\<close>. It is \<open>parse_lines\<close>, which is in the source, on the text of the
  directory's manifest file, and the empty sequence when the file cannot be opened.
\<close>

definition read_manifest :: "filesystem \<Rightarrow> string \<Rightarrow> string list" where
  "read_manifest fs egg_info_dir =
     (case open_read fs (os_path_join egg_info_dir ''paster_plugins.txt'') of
        Inl e \<Rightarrow> []
      | Inr text \<Rightarrow> parse_lines text)"

text \<open>
  Registries and distributions for the examples: a registry given by a table, whose
  exception for a missing name reads as the one of \<open>importlib.metadata\<close>, and a
  distribution with a name, a \<open>Metadata-Version\<close> field (or none) and the text of its
  \<open>paster_plugins.txt\<close>.
\<close>

definition registry_of :: "(string \<times> distribution) list \<Rightarrow> registry" where
  "registry_of table name =
     (case map_of table name of
        None \<Rightarrow> NotFound (''No package metadata was found for '' @ name)
      | Some dist \<Rightarrow> Found dist)"

definition plugin_dist :: "string \<Rightarrow> string option \<Rightarrow> string \<Rightarrow> distribution" where
  "plugin_dist name version manifest =
     \<lparr>metadata = [''Name'' \<mapsto> name](''Metadata-Version'' := version),
      read_text = (\<lambda>filename. if filename = ''paster_plugins.txt'' then Inr (Some manifest)
                               else Inr None),
      entry_points = Inr []\<rparr>"

text \<open>
  The directories that the upward walk of \<open>find_egg_info_dir\<close> lists: the start, and the
  parent of a directory that could be listed, has no entry that ends with \<open>.egg-info\<close> and
  is a directory, and is not its own parent.
\<close>

inductive reaches :: "directories \<Rightarrow> string \<Rightarrow> string \<Rightarrow> bool"
  for os :: directories and start :: string where
  start: "reaches os start start"
| up: "reaches os start dir \<Longrightarrow> os_listdir os dir = Some filenames \<Longrightarrow>
       find (\<lambda>fn. py_endswith fn ''.egg-info'' \<and> os_path_isdir os (os_path_join dir fn)) filenames
         = None \<Longrightarrow>
       os_path_dirname dir \<noteq> dir \<Longrightarrow>
       reaches os start (os_path_dirname dir)"

text \<open>Directories for the examples: the listings by path, and the paths that are directories.\<close>

definition directories_of :: "(string \<times> string list) list \<Rightarrow> string list \<Rightarrow> directories" where
  "directories_of table subdirs =
     \<lparr>os_listdir = map_of table, os_path_isdir = (\<lambda>path. path \<in> set subdirs)\<rparr>"




section \<open>Properties of the string and file operations\<close>

lemma isspace_LF: "isspace LF"
  by (simp add: isspace_def whitespace_def)

lemma py_strip_stripped: "stripped s \<Longrightarrow> py_strip s = s"
  by (metis dropWhile_eq_self_iff hd_rev py_strip_def rev.simps(1) rev_rev_ident stripped_def)

lemma stripped_py_strip: "stripped (py_strip s)"
proof -
  define t where "t = dropWhile isspace s"
  define r where "r = dropWhile isspace (rev t)"
  have ps: "py_strip s = rev r"
    by (simp add: py_strip_def t_def r_def)
  show ?thesis
  proof (cases "r = []")
    case True
    then show ?thesis
      by (simp add: ps stripped_def)
  next
    case False
    then have hr: "\<not> isspace (hd r)"
      unfolding r_def by (rule hd_dropWhile)
    from False have tne: "t \<noteq> []"
      by (auto simp: r_def)
    then have ht: "\<not> isspace (hd t)"
      unfolding t_def by (rule hd_dropWhile)
    from False obtain x where "x \<in> set (rev t)" "\<not> isspace x"
      unfolding r_def by (metis dropWhile_eq_Nil_conv)
    then have "last r = last (rev t)"
      unfolding r_def by (rule dropWhile_last)
    with tne have "last r = hd t"
      by (simp add: last_rev)
    with ht hr False show ?thesis
      by (simp add: ps stripped_def hd_rev last_rev)
  qed
qed

lemma py_strip_idem: "py_strip (py_strip s) = py_strip s"
  by (rule py_strip_stripped) (rule stripped_py_strip)

lemma py_strip_snoc_space:
  assumes "isspace c"
  shows "py_strip (s @ [c]) = py_strip s"
proof (cases "\<forall>x\<in>set s. isspace x")
  case True
  then have "\<forall>x\<in>set (s @ [c]). isspace x"
    using assms by simp
  then have "dropWhile isspace (s @ [c]) = []"
    by (simp only: dropWhile_eq_Nil_conv)
  moreover from True have "dropWhile isspace s = []"
    by (simp only: dropWhile_eq_Nil_conv)
  ultimately show ?thesis
    by (simp only: py_strip_def)
next
  case False
  then have "dropWhile isspace (s @ [c]) = dropWhile isspace s @ [c]"
    by (simp add: dropWhile_append)
  then show ?thesis
    using assms by (simp add: py_strip_def)
qed

lemma set_py_strip: "set (py_strip s) \<subseteq> set s"
  by (auto simp: py_strip_def dest!: set_dropWhileD)

lemma universal_newlines_id: "CR \<notin> set s \<Longrightarrow> universal_newlines s = s"
  by (induction s rule: universal_newlines.induct) auto

lemma universal_newlines_no_CR: "CR \<notin> set (universal_newlines s)"
  by (induction s rule: universal_newlines.induct) auto

lemma set_universal_newlines: "set (universal_newlines s) \<subseteq> insert LF (set s)"
  by (induction s rule: universal_newlines.induct) auto

lemma readlines_line:
  "LF \<notin> set l \<Longrightarrow> readlines (l @ LF # rest) = (l @ [LF]) # readlines rest"
  by (induction l) auto

lemma readlines_write_lines:
  "\<forall>l\<in>set ls. LF \<notin> set l \<Longrightarrow> readlines (write_lines ls) = map (\<lambda>l. l @ [LF]) ls"
  by (induction ls) (auto simp: write_lines_def readlines_line)

lemma concat_readlines: "concat (readlines t) = t"
  by (induction t) (auto split: list.splits)

lemma readlines_butlast: "l \<in> set (readlines t) \<Longrightarrow> l \<noteq> [] \<and> LF \<notin> set (butlast l)"
  by (induction t arbitrary: l) (auto split: list.splits if_splits)

lemma readlines_no_LF_strip:
  assumes "l \<in> set (readlines t)"
  shows "LF \<notin> set (py_strip l)"
proof -
  from readlines_butlast [OF assms] have ne: "l \<noteq> []" and bl: "LF \<notin> set (butlast l)"
    by auto
  show ?thesis
  proof (cases "last l = LF")
    case True
    with ne have "l = butlast l @ [LF]"
      by (metis append_butlast_last_id)
    then have "py_strip l = py_strip (butlast l)"
      by (metis py_strip_snoc_space isspace_LF)
    with bl set_py_strip show ?thesis
      by fastforce
  next
    case False
    from ne have "set l = insert (last l) (set (butlast l))"
      by (metis append_butlast_last_id list.simps(15) rotate1.simps(2) set_rotate1)
    with False bl have "LF \<notin> set l"
      by auto
    with set_py_strip show ?thesis
      by fastforce
  qed
qed

text \<open>Every line that the manifest store reads is a plain name.\<close>

lemma stripped_lines_plain:
  assumes "l \<in> set (stripped_lines (universal_newlines content))"
  shows "plain_name l"
proof -
  from assms obtain l0 where l0: "l0 \<in> set (readlines (universal_newlines content))"
    and l: "l = py_strip l0" and ne: "py_strip l0 \<noteq> []"
    by (auto simp: stripped_lines_def)
  have "set (universal_newlines content)
      = \<Union> (set ` set (readlines (universal_newlines content)))"
    by (metis concat_readlines set_concat)
  with l0 have "set l0 \<subseteq> set (universal_newlines content)"
    by auto
  then have "CR \<notin> set l0"
    using universal_newlines_no_CR by blast
  then have "CR \<notin> set l"
    using set_py_strip l by blast
  moreover have "LF \<notin> set l"
    using readlines_no_LF_strip [OF l0] l by simp
  ultimately show ?thesis
    using l ne by (simp add: plain_name_def py_strip_idem)
qed

lemma manifest_lines_plain: "\<forall>l\<in>set (manifest_lines fs d). plain_name l"
  by (auto simp: manifest_lines_def stripped_lines_plain split: option.splits)

lemma py_strip_line_LF: "py_strip s = s \<Longrightarrow> py_strip (s @ [LF]) = s"
  by (simp add: py_strip_snoc_space isspace_LF)

text \<open>Plain names that were written one per line are read back as they were.\<close>

lemma stripped_lines_write_lines:
  assumes "\<forall>l\<in>set ls. plain_name l"
  shows "stripped_lines (universal_newlines (write_lines ls)) = ls"
proof -
  have "CR \<notin> set (write_lines ls)"
    using assms by (auto simp: write_lines_def plain_name_def)
  then have "universal_newlines (write_lines ls) = write_lines ls"
    by (rule universal_newlines_id)
  moreover have "readlines (write_lines ls) = map (\<lambda>l. l @ [LF]) ls"
    using assms by (intro readlines_write_lines) (auto simp: plain_name_def)
  moreover have "map py_strip (filter (\<lambda>l. py_strip l \<noteq> []) (map (\<lambda>l. l @ [LF]) ls)) = ls"
    using assms by (induction ls) (auto simp: plain_name_def py_strip_line_LF)
  ultimately show ?thesis
    by (simp add: stripped_lines_def)
qed

lemma is_linebreak_LF: "is_linebreak LF"
  by (simp add: is_linebreak_def linebreaks_def)

lemma is_linebreak_CR: "is_linebreak CR"
  by (simp add: is_linebreak_def linebreaks_def)

lemma is_linebreak_isspace: "is_linebreak c \<Longrightarrow> isspace c"
  by (auto simp: is_linebreak_def linebreaks_def isspace_def whitespace_def)

lemma readlines_Nil_iff: "readlines t = [] \<longleftrightarrow> t = []"
  by (cases t) (auto split: list.splits)

lemma py_splitlines_Nil_iff: "py_splitlines t = [] \<longleftrightarrow> t = []"
  by (induction t rule: py_splitlines.induct) (auto split: list.splits)

lemma readlines_LF: "readlines (LF # t) = [LF] # readlines t"
  by simp

lemma readlines_other: "c \<noteq> LF \<Longrightarrow> readlines t = l # ls \<Longrightarrow> readlines (c # t) = (c # l) # ls"
  by simp

lemma py_splitlines_break:
  "is_linebreak c \<Longrightarrow> c \<noteq> CR \<Longrightarrow> py_splitlines (c # t) = [] # py_splitlines t"
  by (cases t) simp_all

lemma py_splitlines_other:
  "\<not> is_linebreak c \<Longrightarrow> py_splitlines t = l # ls \<Longrightarrow> py_splitlines (c # t) = (c # l) # ls"
  using is_linebreak_CR by (cases t) auto

lemma splitlines_readlines:
  assumes "\<forall>c\<in>set t. is_linebreak c \<longrightarrow> c = LF"
  shows "list_all2 (\<lambda>l l'. l' = l \<or> l' = l @ [LF]) (py_splitlines t) (readlines t)"
  using assms
proof (induction t)
  case Nil
  then show ?case
    by simp
next
  case (Cons c t)
  from Cons.prems have rest: "\<forall>x\<in>set t. is_linebreak x \<longrightarrow> x = LF"
    by simp
  note IH = Cons.IH [OF rest]
  show ?case
  proof (cases "is_linebreak c")
    case True
    with Cons.prems have c: "c = LF"
      by simp
    have "py_splitlines (c # t) = [] # py_splitlines t"
      using True c by (intro py_splitlines_break) simp_all
    moreover have "readlines (c # t) = [LF] # readlines t"
      unfolding c by (rule readlines_LF)
    ultimately show ?thesis
      using IH by (simp only: list_all2_Cons) simp
  next
    case False
    then have nlf: "c \<noteq> LF"
      using is_linebreak_LF by auto
    show ?thesis
    proof (cases t)
      case Nil
      with False nlf show ?thesis
        by simp
    next
      case (Cons d cs)
      obtain l ls where s: "py_splitlines t = l # ls"
        using py_splitlines_Nil_iff [of t] Cons by (cases "py_splitlines t") auto
      obtain l' ls' where r: "readlines t = l' # ls'"
        using readlines_Nil_iff [of t] Cons by (cases "readlines t") auto
      from IH have "list_all2 (\<lambda>l l'. l' = l \<or> l' = l @ [LF]) (l # ls) (l' # ls')"
        by (simp only: s r)
      then have "list_all2 (\<lambda>l l'. l' = l \<or> l' = l @ [LF]) ((c # l) # ls) ((c # l') # ls')"
        by auto
      then show ?thesis
        by (simp only: py_splitlines_other [OF False s] readlines_other [OF nlf r])
    qed
  qed
qed

lemma map_py_strip_splitlines:
  assumes "\<forall>c\<in>set t. is_linebreak c \<longrightarrow> c = LF"
  shows "map py_strip (py_splitlines t) = map py_strip (readlines t)"
proof -
  have "list_all2 (\<lambda>l l'. py_strip l = py_strip l') (py_splitlines t) (readlines t)"
    using splitlines_readlines [OF assms]
    by (rule list_all2_mono) (auto simp: py_strip_snoc_space isspace_LF)
  then show ?thesis
    by (induction rule: list_all2_induct) simp_all
qed

text \<open>On a text whose only line boundary is the newline, \<open>parse_lines\<close> yields the
  lines that the manifest store reads, without the comment lines.\<close>

lemma parse_lines_stripped_lines:
  assumes "\<forall>c\<in>set t. is_linebreak c \<longrightarrow> c = LF"
  shows "parse_lines t = filter (\<lambda>l. \<not> py_startswith l ''#'') (stripped_lines t)"
proof -
  have "stripped_lines t = filter (\<lambda>l. l \<noteq> []) (map py_strip (readlines t))"
    by (simp add: stripped_lines_def filter_map o_def)
  then show ?thesis
    by (simp add: parse_lines_def map_py_strip_splitlines [OF assms])
qed

lemma universal_newlines_breaks:
  assumes "newline_only s"
  shows "\<forall>c\<in>set (universal_newlines s). is_linebreak c \<longrightarrow> c = LF"
  using assms set_universal_newlines [of s] universal_newlines_no_CR [of s]
  by (auto simp: newline_only_def)

lemma stripped_lines_chars:
  assumes "l \<in> set (stripped_lines t)"
  shows "set l \<subseteq> set t"
proof -
  from assms obtain l0 where l0: "l0 \<in> set (readlines t)" and l: "l = py_strip l0"
    by (auto simp: stripped_lines_def)
  have "set t = \<Union> (set ` set (readlines t))"
    by (metis concat_readlines set_concat)
  with l0 have "set l0 \<subseteq> set t" by auto
  with set_py_strip l show ?thesis by blast
qed

lemma write_lines_chars: "set (write_lines ls) \<subseteq> insert LF (\<Union> (set ` set ls))"
  by (auto simp: write_lines_def)

text \<open>What \<open>parse_lines\<close> reads from a manifest that the store has written.\<close>

lemma parse_lines_write_lines:
  assumes "\<forall>l\<in>set ls. plain_name l \<and> newline_only l"
  shows "parse_lines (universal_newlines (write_lines ls)) = filter (\<lambda>l. \<not> py_startswith l ''#'') ls"
proof -
  have "\<forall>c\<in>set (write_lines ls). is_linebreak c \<longrightarrow> c = LF"
    using assms write_lines_chars [of ls] by (auto simp: newline_only_def plain_name_def)
  then have "newline_only (write_lines ls)"
    by (simp add: newline_only_def)
  from parse_lines_stripped_lines [OF universal_newlines_breaks [OF this]] assms
  show ?thesis by (simp add: stripped_lines_write_lines)
qed

lemma manifest_lines_newline_only:
  assumes "files fs (os_path_join d ''paster_plugins.txt'') = Some content" and "newline_only content"
  shows "\<forall>l\<in>set (manifest_lines fs d). plain_name l \<and> newline_only l"
proof
  fix l assume l: "l \<in> set (manifest_lines fs d)"
  then have "l \<in> set (stripped_lines (universal_newlines content))"
    using assms(1) by (simp add: manifest_lines_def)
  from stripped_lines_chars [OF this] universal_newlines_breaks [OF assms(2)]
  have "newline_only l" by (auto simp: newline_only_def)
  with l manifest_lines_plain show "plain_name l \<and> newline_only l" by blast
qed

lemmas string_eval = py_strip_def isspace_def whitespace_def is_linebreak_def linebreaks_def
  py_startswith_def py_endswith_def py_lower_def lower_char_def isupper_char_def

lemmas store_eval = os_path_join_def os_path_exists_def os_path_dirname_def os_makedirs_def
  open_read_def open_write_def write_lines_def stripped_lines_def manifest_lines_def
  read_manifest_def parse_lines_def newline_only_def plain_name_def Let_def

section \<open>Manifest store: adding a plugin\<close>

lemma add_plugin_cases:
  assumes "add_plugin fs d n = Inr fs'"
  shows "(n \<in> set (manifest_lines fs d) \<and> fs' = fs
            \<and> files fs (os_path_join d ''paster_plugins.txt'') \<noteq> None)
       \<or> (n \<notin> set (manifest_lines fs d)
            \<and> files fs' (os_path_join d ''paster_plugins.txt'')
                = Some (write_lines (manifest_lines fs d @ [n])))"
  using assms
  by (auto simp: add_plugin_def manifest_lines_def Let_def os_path_exists_def open_read_def
      open_write_def os_makedirs_def
      split: if_splits sum.splits option.splits)

lemma add_plugin_present:
  assumes "files fs (os_path_join d ''paster_plugins.txt'') = Some c"
    and "n \<in> set (stripped_lines (universal_newlines c))"
  shows "add_plugin fs d n = Inr fs"
  using assms
  by (auto simp: add_plugin_def Let_def os_path_exists_def open_read_def)

text \<open>
  C4 (as amended). For a plain name (not empty, no whitespace around it, no line end
  inside): when \<open>add_plugin\<close> has succeeded, a second call with the same directory and
  name succeeds and leaves the file system as it is, and the manifest then holds the name
  as often as before the first call, but at least once; so exactly once when it held it
  at most once before.
\<close>

theorem add_plugin_twice:
  assumes "plain_name plugin_name"
    and "add_plugin fs egg_info_dir plugin_name = Inr fs'"
  shows "add_plugin fs' egg_info_dir plugin_name = Inr fs' \<and>
         count_list (manifest_lines fs' egg_info_dir) plugin_name =
           max 1 (count_list (manifest_lines fs egg_info_dir) plugin_name)"
proof -
  let ?fn = "os_path_join egg_info_dir ''paster_plugins.txt''"
  from add_plugin_cases [OF assms(2)] show ?thesis
  proof
    assume a: "plugin_name \<in> set (manifest_lines fs egg_info_dir) \<and> fs' = fs
      \<and> files fs ?fn \<noteq> None"
    then obtain c where c: "files fs ?fn = Some c"
      by auto
    with a have "plugin_name \<in> set (stripped_lines (universal_newlines c))"
      by (simp add: manifest_lines_def)
    from add_plugin_present [OF c this] a
    have "add_plugin fs' egg_info_dir plugin_name = Inr fs'"
      by simp
    moreover from a have "count_list (manifest_lines fs egg_info_dir) plugin_name \<noteq> 0"
      by (simp only: count_list_0_iff) simp
    ultimately show ?thesis
      using a by (simp add: max_def)
  next
    assume b: "plugin_name \<notin> set (manifest_lines fs egg_info_dir) \<and>
      files fs' ?fn = Some (write_lines (manifest_lines fs egg_info_dir @ [plugin_name]))"
    from assms(1) manifest_lines_plain [of fs egg_info_dir]
    have "\<forall>l\<in>set (manifest_lines fs egg_info_dir @ [plugin_name]). plain_name l"
      by simp
    from stripped_lines_write_lines [OF this] b
    have ml: "manifest_lines fs' egg_info_dir = manifest_lines fs egg_info_dir @ [plugin_name]"
      by (simp add: manifest_lines_def)
    from b have "add_plugin fs' egg_info_dir plugin_name = Inr fs'"
      by (intro add_plugin_present
            [where c = "write_lines (manifest_lines fs egg_info_dir @ [plugin_name])"])
         (use ml in \<open>simp_all add: manifest_lines_def\<close>)
    moreover from b have "count_list (manifest_lines fs egg_info_dir) plugin_name = 0"
      by (simp add: count_list_0_iff)
    ultimately show ?thesis
      by (simp add: ml)
  qed
qed

text \<open>
  The theorem at work: \<open>add_plugin\<close> of \<open>x\<close> in a directory \<open>d\<close> that does not exist yet
  creates \<open>d/paster_plugins.txt\<close> with the one line \<open>x\<close>, and the second call keeps it.
\<close>

theorem add_plugin_twice_witness:
  "plain_name ''x'' \<and>
   add_plugin \<lparr>files = Map.empty, dirs = {}\<rparr> ''d'' ''x''
     = Inr \<lparr>files = [''d/paster_plugins.txt'' \<mapsto> ''x'' @ [LF]], dirs = {''d''}\<rparr> \<and>
   add_plugin \<lparr>files = [''d/paster_plugins.txt'' \<mapsto> ''x'' @ [LF]], dirs = {''d''}\<rparr> ''d'' ''x''
     = Inr \<lparr>files = [''d/paster_plugins.txt'' \<mapsto> ''x'' @ [LF]], dirs = {''d''}\<rparr> \<and>
   count_list
     (manifest_lines \<lparr>files = [''d/paster_plugins.txt'' \<mapsto> ''x'' @ [LF]], dirs = {''d''}\<rparr> ''d'')
     ''x'' = 1"
proof -
  have p: "plain_name ''x''"
    by (simp add: plain_name_def py_strip_def isspace_def whitespace_def)
  have a: "add_plugin \<lparr>files = Map.empty, dirs = {}\<rparr> ''d'' ''x''
     = Inr \<lparr>files = [''d/paster_plugins.txt'' \<mapsto> ''x'' @ [LF]], dirs = {''d''}\<rparr>"
    by (simp add: add_plugin_def os_path_join_def py_startswith_def py_endswith_def
        os_path_exists_def os_path_dirname_def os_makedirs_def open_write_def write_lines_def
        Let_def)
  have m: "manifest_lines \<lparr>files = Map.empty, dirs = {}\<rparr> ''d'' = []"
    by (simp add: manifest_lines_def)
  from add_plugin_twice [OF p a] p a m show ?thesis
    by simp
qed

text \<open>
  C4 as stated fails in two ways. A manifest that holds \<open>x\<close> twice keeps both lines:
  \<open>add_plugin\<close> of \<open>x\<close> finds the name and writes nothing. And for a name with whitespace
  around it the second call is not a no-op: the first \<open>add_plugin\<close> of \<open>" x"\<close> writes the
  line \<open>" x"\<close>, the second call reads it as \<open>"x"\<close>, does not find \<open>" x"\<close> and writes a
  second line; the manifest then reads as \<open>x\<close> twice.
\<close>

theorem add_plugin_twice_counterexample:
  "add_plugin
     \<lparr>files = [''d/paster_plugins.txt'' \<mapsto> ''x'' @ [LF] @ ''x'' @ [LF]], dirs = {''d''}\<rparr> ''d'' ''x''
     = Inr \<lparr>files = [''d/paster_plugins.txt'' \<mapsto> ''x'' @ [LF] @ ''x'' @ [LF]], dirs = {''d''}\<rparr> \<and>
   add_plugin \<lparr>files = Map.empty, dirs = {}\<rparr> ''d'' '' x''
     = Inr \<lparr>files = [''d/paster_plugins.txt'' \<mapsto> '' x'' @ [LF]], dirs = {''d''}\<rparr> \<and>
   add_plugin \<lparr>files = [''d/paster_plugins.txt'' \<mapsto> '' x'' @ [LF]], dirs = {''d''}\<rparr> ''d'' '' x''
     = Inr \<lparr>files = [''d/paster_plugins.txt'' \<mapsto> ''x'' @ [LF] @ '' x'' @ [LF]],
            dirs = {''d''}\<rparr> \<and>
   manifest_lines
     \<lparr>files = [''d/paster_plugins.txt'' \<mapsto> ''x'' @ [LF] @ '' x'' @ [LF]], dirs = {''d''}\<rparr> ''d''
     = [''x'', ''x'']"
  by (simp add: add_plugin_def os_path_join_def py_startswith_def py_endswith_def
        os_path_exists_def os_path_dirname_def os_makedirs_def open_write_def open_read_def
        write_lines_def Let_def manifest_lines_def stripped_lines_def py_strip_def isspace_def
        whitespace_def)

lemma read_manifest_written:
  assumes "files fs (os_path_join d ''paster_plugins.txt'') = Some (write_lines ls)"
    and "\<forall>l\<in>set ls. plain_name l \<and> newline_only l"
  shows "read_manifest fs d = filter (\<lambda>l. \<not> py_startswith l ''#'') ls"
  using assms by (simp add: read_manifest_def open_read_def parse_lines_write_lines)





section \<open>Manifest store: removing a plugin\<close>

lemma find_first_match:
  assumes "\<forall>l\<in>set before. \<not> P l" and "P line"
  shows "find P (before @ line # after) = Some line"
  using assms by (induction before) auto

lemma remove1_first_match:
  assumes "\<forall>l\<in>set before. \<not> P l" and "P line"
  shows "remove1 line (before @ line # after) = before @ after"
proof -
  from assms have "line \<notin> set before" by auto
  then show ?thesis by (simp add: remove1_append)
qed

text \<open>
  C5 (as amended). When a line of the manifest equals the requested name up to case,
  \<open>remove_plugin\<close> succeeds and rewrites the file without the first such line; the other
  lines stay, in their order (stripped, without the blank lines, with the comment lines).
  A line after the removed one that matches the name too stays as well. So a read of the
  manifest afterwards has no line that equals the name up to case when no later line
  matched (and the old file has no other line boundaries than \<open>\n\<close>, \<open>\r\n\<close>, \<open>\r\<close>).
\<close>

theorem remove_plugin_first_match:
  assumes "files fs (os_path_join egg_info_dir ''paster_plugins.txt'') = Some content"
    and "os_path_join egg_info_dir ''paster_plugins.txt'' \<notin> dirs fs"
    and "manifest_lines fs egg_info_dir = before @ line # after"
    and "\<forall>l\<in>set before. py_lower l \<noteq> py_lower plugin_name"
    and "py_lower line = py_lower plugin_name"
    and "fs' = fs\<lparr>files := (files fs)(os_path_join egg_info_dir ''paster_plugins.txt''
                  \<mapsto> write_lines (before @ after))\<rparr>"
  shows "remove_plugin fs egg_info_dir plugin_name = Inr fs' \<and>
         manifest_lines fs' egg_info_dir = before @ after \<and>
         (newline_only content \<longrightarrow>
            read_manifest fs' egg_info_dir
              = filter (\<lambda>l. \<not> py_startswith l ''#'') (before @ after)) \<and>
         (newline_only content \<and> (\<forall>l\<in>set after. py_lower l \<noteq> py_lower plugin_name) \<longrightarrow>
            (\<forall>l\<in>set (read_manifest fs' egg_info_dir). py_lower l \<noteq> py_lower plugin_name))"
proof -
  let ?fn = "os_path_join egg_info_dir ''paster_plugins.txt''"
  let ?P = "\<lambda>l. py_lower l = py_lower plugin_name"
  have lines: "stripped_lines (universal_newlines content) = before @ line # after"
    using assms(1,3) by (simp add: manifest_lines_def)
  have f: "find ?P (before @ line # after) = Some line"
    using assms(4,5) by (intro find_first_match) auto
  have r: "remove1 line (before @ line # after) = before @ after"
    using assms(4,5) by (intro remove1_first_match [where P = ?P]) auto
  have rm: "remove_plugin fs egg_info_dir plugin_name = Inr fs'"
    using assms(1,2,6) lines f r
    by (simp add: remove_plugin_def os_path_exists_def open_read_def open_write_def Let_def dom_def)
  have file': "files fs' ?fn = Some (write_lines (before @ after))"
    using assms(6) by simp
  have plain: "\<forall>l\<in>set (before @ after). plain_name l"
    using manifest_lines_plain [of fs egg_info_dir] assms(3) by auto
  have ml: "manifest_lines fs' egg_info_dir = before @ after"
    using file' stripped_lines_write_lines [OF plain] by (simp add: manifest_lines_def)
  have rd: "read_manifest fs' egg_info_dir = filter (\<lambda>l. \<not> py_startswith l ''#'') (before @ after)"
    if "newline_only content"
  proof -
    from manifest_lines_newline_only [OF assms(1) that] assms(3)
    have "\<forall>l\<in>set (before @ after). plain_name l \<and> newline_only l"
      by auto
    from read_manifest_written [OF file' this] show ?thesis .
  qed
  have "\<forall>l\<in>set (read_manifest fs' egg_info_dir). py_lower l \<noteq> py_lower plugin_name"
    if "newline_only content" and "\<forall>l\<in>set after. py_lower l \<noteq> py_lower plugin_name"
    using rd [OF that(1)] that(2) assms(4) by auto
  with rm ml rd show ?thesis
    by blast
qed

text \<open>The manifest \<open># c\<close>, \<open>X\<close>, \<open>y\<close>, from which \<open>x\<close> is removed.\<close>

theorem remove_plugin_first_match_witness:
  "manifest_lines
     \<lparr>files = [''d/paster_plugins.txt'' \<mapsto> ''# c'' @ [LF] @ ''X'' @ [LF] @ ''y'' @ [LF]],
      dirs = {''d''}\<rparr> ''d'' = [''# c''] @ ''X'' # [''y''] \<and>
   py_lower ''# c'' \<noteq> py_lower ''x'' \<and> py_lower ''X'' = py_lower ''x'' \<and>
   py_lower ''y'' \<noteq> py_lower ''x'' \<and>
   newline_only (''# c'' @ [LF] @ ''X'' @ [LF] @ ''y'' @ [LF]) \<and>
   remove_plugin
     \<lparr>files = [''d/paster_plugins.txt'' \<mapsto> ''# c'' @ [LF] @ ''X'' @ [LF] @ ''y'' @ [LF]],
      dirs = {''d''}\<rparr> ''d'' ''x''
     = Inr \<lparr>files = [''d/paster_plugins.txt'' \<mapsto> ''# c'' @ [LF] @ ''y'' @ [LF]],
            dirs = {''d''}\<rparr> \<and>
   manifest_lines
     \<lparr>files = [''d/paster_plugins.txt'' \<mapsto> ''# c'' @ [LF] @ ''y'' @ [LF]], dirs = {''d''}\<rparr> ''d''
     = [''# c'', ''y''] \<and>
   read_manifest
     \<lparr>files = [''d/paster_plugins.txt'' \<mapsto> ''# c'' @ [LF] @ ''y'' @ [LF]], dirs = {''d''}\<rparr> ''d''
     = [''y'']"
proof -
  let ?content = "''# c'' @ [LF] @ ''X'' @ [LF] @ ''y'' @ [LF]"
  let ?fs = "\<lparr>files = [''d/paster_plugins.txt'' \<mapsto> ?content], dirs = {''d''}\<rparr>"
  let ?fs' = "?fs\<lparr>files := (files ?fs)(os_path_join ''d'' ''paster_plugins.txt''
                  \<mapsto> write_lines ([''# c''] @ [''y'']))\<rparr>"
  have fn: "os_path_join ''d'' ''paster_plugins.txt'' = ''d/paster_plugins.txt''"
    by (simp add: os_path_join_def py_startswith_def py_endswith_def)
  have h1: "files ?fs (os_path_join ''d'' ''paster_plugins.txt'') = Some ?content"
    by (simp add: fn)
  have h2: "os_path_join ''d'' ''paster_plugins.txt'' \<notin> dirs ?fs"
    by (simp add: fn)
  have h3: "manifest_lines ?fs ''d'' = [''# c''] @ ''X'' # [''y'']"
    by (simp add: fn manifest_lines_def stripped_lines_def py_strip_def isspace_def whitespace_def)
  have h4: "\<forall>l\<in>set [''# c'']. py_lower l \<noteq> py_lower ''x''"
    by (simp add: py_lower_def lower_char_def isupper_char_def)
  have h5: "py_lower ''X'' = py_lower ''x''"
    by (simp add: py_lower_def lower_char_def isupper_char_def)
  have h6: "\<forall>l\<in>set [''y'']. py_lower l \<noteq> py_lower ''x''"
    by (simp add: py_lower_def lower_char_def isupper_char_def)
  have h7: "newline_only ?content"
    by (simp add: newline_only_def is_linebreak_def linebreaks_def)
  have e: "?fs' = \<lparr>files = [''d/paster_plugins.txt'' \<mapsto> ''# c'' @ [LF] @ ''y'' @ [LF]],
            dirs = {''d''}\<rparr>"
    by (simp add: fn write_lines_def)
  from remove_plugin_first_match [OF h1 h2 h3 h4 h5 refl] h3 h4 h5 h6 h7
  show ?thesis
    unfolding e by (simp add: py_startswith_def)
qed

text \<open>
  C5 as stated fails when a second line matches: from the manifest \<open>X\<close>, \<open>x\<close> (which
  \<open>add_plugin\<close> builds, since it compares with case) \<open>remove_plugin\<close> of \<open>x\<close> removes
  the line \<open>X\<close>, and a read afterwards still contains \<open>x\<close>.
\<close>

theorem remove_plugin_case_variant_counterexample:
  "remove_plugin
     \<lparr>files = [''d/paster_plugins.txt'' \<mapsto> ''X'' @ [LF] @ ''x'' @ [LF]], dirs = {''d''}\<rparr>
     ''d'' ''x''
     = Inr \<lparr>files = [''d/paster_plugins.txt'' \<mapsto> ''x'' @ [LF]], dirs = {''d''}\<rparr> \<and>
   read_manifest \<lparr>files = [''d/paster_plugins.txt'' \<mapsto> ''x'' @ [LF]], dirs = {''d''}\<rparr> ''d''
     = [''x'']"
  by (simp add: remove_plugin_def store_eval string_eval)

text \<open>
  C6. \<open>remove_plugin\<close> fails with a \<open>ValueError\<close> that says that the file does not exist
  when there is no manifest file at the path, and with a \<open>ValueError\<close> whose message has the
  requested name, the path and the lines of the manifest as its arguments when no line of
  the manifest equals the name up to case. Both are returned to the caller as they are.
\<close>

theorem remove_plugin_errors:
  "(\<not> os_path_exists fs (os_path_join egg_info_dir ''paster_plugins.txt'') \<longrightarrow>
      remove_plugin fs egg_info_dir plugin_name =
        Inl (ValueError (Format ''Cannot remove plugin from %s; file does not exist''
               [Str (os_path_join egg_info_dir ''paster_plugins.txt'')]))) \<and>
   (files fs (os_path_join egg_info_dir ''paster_plugins.txt'') = Some content \<and>
    (\<forall>line\<in>set (manifest_lines fs egg_info_dir). py_lower line \<noteq> py_lower plugin_name) \<longrightarrow>
      remove_plugin fs egg_info_dir plugin_name =
        Inl (ValueError (Format ''Plugin %s not found in file %s (from: %s)''
               [Str plugin_name, Str (os_path_join egg_info_dir ''paster_plugins.txt''),
                StrList (manifest_lines fs egg_info_dir)])))"
proof (intro conjI impI)
  assume "\<not> os_path_exists fs (os_path_join egg_info_dir ''paster_plugins.txt'')"
  then show "remove_plugin fs egg_info_dir plugin_name =
        Inl (ValueError (Format ''Cannot remove plugin from %s; file does not exist''
               [Str (os_path_join egg_info_dir ''paster_plugins.txt'')]))"
    by (simp add: remove_plugin_def)
next
  let ?P = "\<lambda>line. py_lower line = py_lower plugin_name"
  assume a: "files fs (os_path_join egg_info_dir ''paster_plugins.txt'') = Some content \<and>
    (\<forall>line\<in>set (manifest_lines fs egg_info_dir). py_lower line \<noteq> py_lower plugin_name)"
  then have "find ?P (manifest_lines fs egg_info_dir) = None"
    by (simp add: find_None_iff)
  with a show "remove_plugin fs egg_info_dir plugin_name =
        Inl (ValueError (Format ''Plugin %s not found in file %s (from: %s)''
               [Str plugin_name, Str (os_path_join egg_info_dir ''paster_plugins.txt''),
                StrList (manifest_lines fs egg_info_dir)]))"
    by (simp add: remove_plugin_def os_path_exists_def open_read_def manifest_lines_def Let_def dom_def)
qed

text \<open>A directory without a manifest, and the manifest \<open>Y\<close>, \<open>z\<close> without the name \<open>x\<close>.\<close>

theorem remove_plugin_errors_witness:
  "\<not> os_path_exists \<lparr>files = Map.empty, dirs = {''d''}\<rparr> (os_path_join ''d'' ''paster_plugins.txt'') \<and>
   remove_plugin \<lparr>files = Map.empty, dirs = {''d''}\<rparr> ''d'' ''x'' =
     Inl (ValueError (Format ''Cannot remove plugin from %s; file does not exist''
            [Str ''d/paster_plugins.txt''])) \<and>
   manifest_lines
     \<lparr>files = [''d/paster_plugins.txt'' \<mapsto> ''Y'' @ [LF] @ ''z'' @ [LF]], dirs = {''d''}\<rparr> ''d''
     = [''Y'', ''z''] \<and>
   py_lower ''Y'' \<noteq> py_lower ''x'' \<and> py_lower ''z'' \<noteq> py_lower ''x'' \<and>
   remove_plugin
     \<lparr>files = [''d/paster_plugins.txt'' \<mapsto> ''Y'' @ [LF] @ ''z'' @ [LF]], dirs = {''d''}\<rparr>
     ''d'' ''x'' =
     Inl (ValueError (Format ''Plugin %s not found in file %s (from: %s)''
            [Str ''x'', Str ''d/paster_plugins.txt'', StrList [''Y'', ''z'']]))"
proof -
  let ?fs1 = "\<lparr>files = Map.empty, dirs = {''d''}\<rparr>"
  let ?fs2 = "\<lparr>files = [''d/paster_plugins.txt'' \<mapsto> ''Y'' @ [LF] @ ''z'' @ [LF]],
               dirs = {''d''}\<rparr>"
  have fn: "os_path_join ''d'' ''paster_plugins.txt'' = ''d/paster_plugins.txt''"
    by (simp add: os_path_join_def py_startswith_def py_endswith_def)
  have a: "\<not> os_path_exists ?fs1 (os_path_join ''d'' ''paster_plugins.txt'')"
    by (simp add: fn os_path_exists_def)
  have b: "files ?fs2 (os_path_join ''d'' ''paster_plugins.txt'')
      = Some (''Y'' @ [LF] @ ''z'' @ [LF])"
    by (simp add: fn)
  have m: "manifest_lines ?fs2 ''d'' = [''Y'', ''z'']"
    by (simp add: fn manifest_lines_def stripped_lines_def py_strip_def isspace_def whitespace_def)
  have l: "py_lower ''Y'' \<noteq> py_lower ''x''" "py_lower ''z'' \<noteq> py_lower ''x''"
    by (simp_all add: py_lower_def lower_char_def isupper_char_def)
  from l m have c: "\<forall>line\<in>set (manifest_lines ?fs2 ''d''). py_lower line \<noteq> py_lower ''x''"
    by simp
  from remove_plugin_errors [of ?fs1 "''d''" "''x''", THEN conjunct1, rule_format, OF a]
    remove_plugin_errors [of ?fs2 "''d''" "''x''", THEN conjunct2, rule_format, OF conjI, OF b c]
    a m l
  show ?thesis
    by (simp add: fn)
qed

section \<open>Plugin resolver\<close>

lemma resolve_loop_Nil: "resolve_loop reg [] found = Some (Inr found)"
  by (subst resolve_loop.simps) simp

lemma resolve_loop_snoc:
  "resolve_loop reg (plugin_list @ [plugin]) found =
     (case reg plugin of
        NotFound str_e \<Rightarrow> Some (Inl (not_found_error str_e plugin))
      | Found dist \<Rightarrow>
          (case listed_plugins dist of
             Inl e \<Rightarrow> Some (Inl e)
           | Inr names \<Rightarrow>
               resolve_loop reg
                 (plugin_list @ filter (\<lambda>name. name \<notin> set (found @ [plugin])) names)
                 (found @ [plugin])))"
  by (subst resolve_loop.simps) (simp add: Let_def split: lookup.split sum.split)

lemma resolve_loop_pop:
  "plugin_list \<noteq> [] \<Longrightarrow>
   resolve_loop reg plugin_list found =
     (case reg (last plugin_list) of
        NotFound str_e \<Rightarrow> Some (Inl (not_found_error str_e (last plugin_list)))
      | Found dist \<Rightarrow>
          (case listed_plugins dist of
             Inl e \<Rightarrow> Some (Inl e)
           | Inr names \<Rightarrow>
               resolve_loop reg
                 (butlast plugin_list @
                    filter (\<lambda>name. name \<notin> set (found @ [last plugin_list])) names)
                 (found @ [last plugin_list])))"
  by (subst resolve_loop.simps) (simp add: Let_def split: lookup.split sum.split)

lemma parse_lines_Nil: "parse_lines [] = []"
  by (simp add: parse_lines_def)

lemma listed_plugins_plugin_dist:
  "listed_plugins (plugin_dist name version manifest) =
     (if version = None \<or> version = Some [] \<or> manifest = [] then Inr [] else Inr (parse_lines manifest))"
  by (auto simp: listed_plugins_def plugin_dist_def split: option.splits)

text \<open>
  C1. The result of \<open>resolve_plugins\<close> is to hold no plugin name twice, also for a diamond.
  The code does not keep this: its guard \<open>if add_plugin not in found\<close> looks at \<open>found\<close>
  only, so a name that is pending in the queue is pushed again, and a popped name is
  appended to \<open>found\<close> without a check. With \<open>A\<close> listing \<open>B\<close> and \<open>C\<close>, and \<open>C\<close> listing
  \<open>B\<close>, \<open>resolve_plugins [A]\<close> returns the names \<open>A\<close>, \<open>C\<close>, \<open>B\<close>, \<open>B\<close> and the distribution
  of \<open>B\<close> twice. In the same way a manifest that lists \<open>B\<close> twice gives \<open>B\<close> twice, and the
  initial list \<open>[A, A]\<close> gives \<open>A\<close> twice.
\<close>

theorem resolve_plugins_diamond_duplicate:
  "resolve_loop
     (registry_of [(''A'', plugin_dist ''A'' (Some ''2.1'') (''B'' @ [LF] @ ''C'' @ [LF])),
                   (''B'', plugin_dist ''B'' (Some ''2.1'') []),
                   (''C'', plugin_dist ''C'' (Some ''2.1'') (''B'' @ [LF]))]) [''A''] []
     = Some (Inr [''A'', ''C'', ''B'', ''B'']) \<and>
   resolve_plugins
     (registry_of [(''A'', plugin_dist ''A'' (Some ''2.1'') (''B'' @ [LF] @ ''C'' @ [LF])),
                   (''B'', plugin_dist ''B'' (Some ''2.1'') []),
                   (''C'', plugin_dist ''C'' (Some ''2.1'') (''B'' @ [LF]))]) [''A'']
     = Some (Inr [plugin_dist ''A'' (Some ''2.1'') (''B'' @ [LF] @ ''C'' @ [LF]),
                  plugin_dist ''C'' (Some ''2.1'') (''B'' @ [LF]),
                  plugin_dist ''B'' (Some ''2.1'') [],
                  plugin_dist ''B'' (Some ''2.1'') []]) \<and>
   resolve_loop
     (registry_of [(''A'', plugin_dist ''A'' (Some ''2.1'') (''B'' @ [LF] @ ''B'' @ [LF])),
                   (''B'', plugin_dist ''B'' (Some ''2.1'') [])]) [''A''] []
     = Some (Inr [''A'', ''B'', ''B'']) \<and>
   resolve_plugins
     (registry_of [(''A'', plugin_dist ''A'' (Some ''2.1'') (''B'' @ [LF] @ ''B'' @ [LF])),
                   (''B'', plugin_dist ''B'' (Some ''2.1'') [])]) [''A'']
     = Some (Inr [plugin_dist ''A'' (Some ''2.1'') (''B'' @ [LF] @ ''B'' @ [LF]),
                  plugin_dist ''B'' (Some ''2.1'') [],
                  plugin_dist ''B'' (Some ''2.1'') []]) \<and>
   resolve_loop (registry_of [(''A'', plugin_dist ''A'' (Some ''2.1'') [])]) [''A'', ''A''] []
     = Some (Inr [''A'', ''A'']) \<and>
   resolve_plugins (registry_of [(''A'', plugin_dist ''A'' (Some ''2.1'') [])]) [''A'', ''A'']
     = Some (Inr [plugin_dist ''A'' (Some ''2.1'') [], plugin_dist ''A'' (Some ''2.1'') []])"
  by (simp add: resolve_plugins_def get_distro_def
        resolve_loop_pop resolve_loop_Nil registry_of_def listed_plugins_plugin_dist
        parse_lines_def py_strip_def isspace_def whitespace_def is_linebreak_def
        linebreaks_def py_startswith_def)



text \<open>
  C3. When the name that the resolver pops is not in the registry, the loop ends at once
  with \<open>PackageNotFoundError\<close>, whatever else is in the queue and in \<open>found\<close>; its message
  is the format with the hint \<open>did you run python setup.py develop?\<close>, filled with the
  requested name (and with the text of the registry's exception, when that differs from
  the name). \<open>resolve_plugins\<close> returns this error for every initial list that ends with
  such a name.
\<close>

theorem resolve_plugins_not_found:
  assumes "reg plugin = NotFound str_e"
  shows "resolve_loop reg (plugin_list @ [plugin]) found =
           Some (Inl (PackageNotFoundError
             (Format ''%sNot Found%s: %s (did you run python setup.py develop?)''
                [Str (if str_e \<noteq> plugin then str_e @ '': '' else []),
                 Str (if str_e \<noteq> plugin then '' for'' else []),
                 Str plugin])))
       \<and> resolve_plugins reg (plugin_list @ [plugin]) =
           Some (Inl (PackageNotFoundError
             (Format ''%sNot Found%s: %s (did you run python setup.py develop?)''
                [Str (if str_e \<noteq> plugin then str_e @ '': '' else []),
                 Str (if str_e \<noteq> plugin then '' for'' else []),
                 Str plugin])))"
  using assms
  by (simp add: resolve_plugins_def resolve_loop_snoc not_found_error_def)

text \<open>\<open>resolve_plugins ["missing"]\<close> in an empty registry.\<close>

theorem resolve_plugins_not_found_witness:
  "registry_of [] ''missing'' = NotFound ''No package metadata was found for missing'' \<and>
   resolve_plugins (registry_of []) [''missing''] =
     Some (Inl (PackageNotFoundError
       (Format ''%sNot Found%s: %s (did you run python setup.py develop?)''
          [Str ''No package metadata was found for missing: '', Str '' for'', Str ''missing''])))"
proof -
  have a: "registry_of [] ''missing'' = NotFound ''No package metadata was found for missing''"
    by (simp add: registry_of_def)
  from resolve_plugins_not_found
    [where reg = "registry_of []" and plugin = "''missing''" and plugin_list = "[]", OF a] a
  show ?thesis
    by simp
qed

text \<open>
  C10. For a registered distribution whose metadata has no \<open>Metadata-Version\<close> field, or
  an empty one, the resolver takes no names from the manifest, whatever \<open>read_text\<close> would
  return: the step appends the popped name to \<open>found\<close> and leaves the rest of the queue as
  it is, and \<open>resolve_plugins\<close> of that name alone returns just that distribution.
\<close>

theorem resolve_without_metadata_version:
  assumes "reg plugin = Found dist"
    and "metadata dist ''Metadata-Version'' = None \<or> metadata dist ''Metadata-Version'' = Some []"
  shows "listed_plugins dist = Inr [] \<and>
         resolve_loop reg (plugin_list @ [plugin]) found =
           resolve_loop reg plugin_list (found @ [plugin]) \<and>
         resolve_plugins reg [plugin] = Some (Inr [dist])"
proof -
  from assms(2) have l: "listed_plugins dist = Inr []"
    by (auto simp: listed_plugins_def)
  with assms(1) have step: "\<And>q f. resolve_loop reg (q @ [plugin]) f = resolve_loop reg q (f @ [plugin])"
    by (simp add: resolve_loop_snoc)
  from step [of "[]" "[]"] have "resolve_loop reg [plugin] [] = Some (Inr [plugin])"
    by (simp add: resolve_loop_Nil)
  with assms(1) have "resolve_plugins reg [plugin] = Some (Inr [dist])"
    by (simp add: resolve_plugins_def get_distro_def)
  with l step show ?thesis by simp
qed

text \<open>
  A distribution \<open>A\<close> without \<open>Metadata-Version\<close> whose manifest lists \<open>B\<close>, which is not
  registered: the result is \<open>A\<close> alone, and no error for \<open>B\<close>.
\<close>

theorem resolve_without_metadata_version_witness:
  "registry_of [(''A'', plugin_dist ''A'' None (''B'' @ [LF]))] ''A''
     = Found (plugin_dist ''A'' None (''B'' @ [LF])) \<and>
   metadata (plugin_dist ''A'' None (''B'' @ [LF])) ''Metadata-Version'' = None \<and>
   registry_of [(''A'', plugin_dist ''A'' None (''B'' @ [LF]))] ''B''
     = NotFound ''No package metadata was found for B'' \<and>
   resolve_plugins (registry_of [(''A'', plugin_dist ''A'' None (''B'' @ [LF]))]) [''A'']
     = Some (Inr [plugin_dist ''A'' None (''B'' @ [LF])])"
proof -
  have a: "registry_of [(''A'', plugin_dist ''A'' None (''B'' @ [LF]))] ''A''
     = Found (plugin_dist ''A'' None (''B'' @ [LF]))"
    by (simp add: registry_of_def)
  have b: "metadata (plugin_dist ''A'' None (''B'' @ [LF])) ''Metadata-Version'' = None"
    by (simp add: plugin_dist_def)
  have c: "registry_of [(''A'', plugin_dist ''A'' None (''B'' @ [LF]))] ''B''
     = NotFound ''No package metadata was found for B''"
    by (simp add: registry_of_def)
  from resolve_without_metadata_version
    [where reg = "registry_of [(''A'', plugin_dist ''A'' None (''B'' @ [LF]))]"
       and plugin = "''A''", OF a disjI1, OF b] a b c
  show ?thesis
    by simp
qed

section \<open>Metadata directory locator\<close>

text \<open>The walk gives from its start what it gives from any directory it reaches.\<close>

lemma find_egg_info_dir_reaches:
  "reaches os start dir \<Longrightarrow> find_egg_info_dir os start = find_egg_info_dir os dir"
proof (induction rule: reaches.induct)
  case start
  show ?case by simp
next
  case (up dir filenames)
  have "find_egg_info_dir os dir = find_egg_info_dir os (os_path_dirname dir)"
    using up.hyps(2,3,4) by (subst find_egg_info_dir.simps) (simp add: Let_def)
  with up.IH show ?case by simp
qed

text \<open>
  C7. \<open>find_egg_info_dir\<close> returns a path or \<open>None\<close> and raises nothing. When the walk
  reaches a directory whose listing raises \<open>OSError\<close>, the result is \<open>None\<close>: the walk ends
  there, whatever the directories above hold. When the walk reaches a directory that is its
  own parent and that has no entry ending with \<open>.egg-info\<close> that is a directory, the result
  is \<open>None\<close>.
\<close>

theorem find_egg_info_dir_none:
  assumes "reaches os start dir"
  shows "(os_listdir os dir = None \<longrightarrow> find_egg_info_dir os start = None) \<and>
         (os_listdir os dir = Some filenames \<and>
          find (\<lambda>fn. py_endswith fn ''.egg-info'' \<and> os_path_isdir os (os_path_join dir fn))
            filenames = None \<and>
          os_path_dirname dir = dir \<longrightarrow> find_egg_info_dir os start = None)"
proof (intro conjI impI)
  assume "os_listdir os dir = None"
  then have "find_egg_info_dir os dir = None"
    by (subst find_egg_info_dir.simps) simp
  with find_egg_info_dir_reaches [OF assms] show "find_egg_info_dir os start = None"
    by simp
next
  assume "os_listdir os dir = Some filenames \<and>
          find (\<lambda>fn. py_endswith fn ''.egg-info'' \<and> os_path_isdir os (os_path_join dir fn))
            filenames = None \<and>
          os_path_dirname dir = dir"
  then have "find_egg_info_dir os dir = None"
    by (subst find_egg_info_dir.simps) (simp add: Let_def)
  with find_egg_info_dir_reaches [OF assms] show "find_egg_info_dir os start = None"
    by simp
qed

text \<open>
  From \<open>/a/b\<close>, with \<open>/a\<close> unreadable: \<open>None\<close>, although the root has \<open>y.egg-info\<close>. And
  from \<open>/a\<close> up to a root without a metadata directory: \<open>None\<close>.
\<close>

theorem find_egg_info_dir_none_witness:
  "reaches (directories_of [(''/a/b'', [''x.txt'']), (''/'', [''y.egg-info''])] [''/y.egg-info''])
     ''/a/b'' ''/a'' \<and>
   os_listdir (directories_of [(''/a/b'', [''x.txt'']), (''/'', [''y.egg-info''])] [''/y.egg-info''])
     ''/a'' = None \<and>
   find_egg_info_dir
     (directories_of [(''/a/b'', [''x.txt'']), (''/'', [''y.egg-info''])] [''/y.egg-info''])
     ''/a/b'' = None \<and>
   reaches (directories_of [(''/a'', [''f'']), (''/'', [''bin''])] [''/bin'']) ''/a'' ''/'' \<and>
   os_listdir (directories_of [(''/a'', [''f'']), (''/'', [''bin''])] [''/bin'']) ''/'' = Some [''bin''] \<and>
   os_path_dirname ''/'' = ''/'' \<and>
   find_egg_info_dir (directories_of [(''/a'', [''f'']), (''/'', [''bin''])] [''/bin'']) ''/a'' = None"
proof -
  let ?os1 = "directories_of [(''/a/b'', [''x.txt'']), (''/'', [''y.egg-info''])] [''/y.egg-info'']"
  let ?os2 = "directories_of [(''/a'', [''f'']), (''/'', [''bin''])] [''/bin'']"
  let ?match1 = "\<lambda>dir fn. py_endswith fn ''.egg-info'' \<and> os_path_isdir ?os1 (os_path_join dir fn)"
  let ?match2 = "\<lambda>dir fn. py_endswith fn ''.egg-info'' \<and> os_path_isdir ?os2 (os_path_join dir fn)"
  have d1: "os_path_dirname ''/a/b'' = ''/a''" and d2: "os_path_dirname ''/a'' = ''/''"
    and d3: "os_path_dirname ''/'' = ''/''"
    by (simp_all add: os_path_dirname_def)
  have "reaches ?os1 ''/a/b'' (os_path_dirname ''/a/b'')"
    by (rule reaches.up [OF reaches.start, of _ _ "[''x.txt'']"])
       (simp_all add: directories_of_def py_endswith_def os_path_dirname_def)
  then have r1: "reaches ?os1 ''/a/b'' ''/a''"
    by (simp only: d1)
  have l1: "os_listdir ?os1 ''/a'' = None"
    by (simp add: directories_of_def)
  have "reaches ?os2 ''/a'' (os_path_dirname ''/a'')"
    by (rule reaches.up [OF reaches.start, of _ _ "[''f'']"])
       (simp_all add: directories_of_def py_endswith_def os_path_dirname_def)
  then have r2: "reaches ?os2 ''/a'' ''/''"
    by (simp only: d2)
  have l2: "os_listdir ?os2 ''/'' = Some [''bin''] \<and> find (?match2 ''/'') [''bin''] = None \<and>
      os_path_dirname ''/'' = ''/''"
    by (simp add: directories_of_def py_endswith_def d3)
  from find_egg_info_dir_none [OF r1, THEN conjunct1, rule_format, OF l1]
    find_egg_info_dir_none [OF r2, THEN conjunct2, rule_format, OF l2] r1 r2 l1 l2
  show ?thesis
    by simp
qed

section \<open>Command loader\<close>










end
